theory Spec2Isabelle
  imports Main "HOL-Library.AList"
begin

section \<open>Book Rental API: data model\<close>

text \<open>
  The service keeps two module-level dictionaries, \<^verbatim>\<open>books\<close> and \<^verbatim>\<open>rentals\<close>, both
  of declared type \<^verbatim>\<open>dict[str, dict]\<close>. Their values are plain Python dictionaries built
  from JSON data (books) or from a dictionary literal (rentals), so they are modelled as
  dictionaries of Python values, not as typed records: a missing key raises
  \<^verbatim>\<open>KeyError\<close> and a value of the wrong type raises \<^verbatim>\<open>TypeError\<close>, and both are
  branches of the model.

  A Python dictionary keeps insertion order; it is an association list that is read with
  \<open>map_of\<close> and written with \<open>AList.update\<close> (an existing key is replaced in place, a new
  key is appended at the end).

  Floating-point numbers are not represented: every number is an unbounded integer.
\<close>

datatype pyval =
    PNone
  | PBool bool
  | PInt int
  | PStr string
  | PList "pyval list"
  | PDict "(string \<times> pyval) list"

type_synonym pydict = "(string \<times> pyval) list"

text \<open>
  Keys of the catalog are whatever \<^verbatim>\<open>book["isbn"]\<close> holds in the JSON source. Python
  hashes \<^verbatim>\<open>True\<close> and \<^verbatim>\<open>1\<close> to the same key; lists and dictionaries are unhashable.
\<close>

datatype pykey = KNone | KInt int | KStr string

fun to_key :: "pyval \<Rightarrow> pykey option" where
  "to_key PNone = Some KNone"
| "to_key (PBool b) = Some (KInt (if b then 1 else 0))"
| "to_key (PInt n) = Some (KInt n)"
| "to_key (PStr s) = Some (KStr s)"
| "to_key (PList xs) = None"
| "to_key (PDict d) = None"

text \<open>The integer a value stands for in arithmetic and comparison (\<^verbatim>\<open>bool\<close> is an \<^verbatim>\<open>int\<close>).\<close>

fun as_int :: "pyval \<Rightarrow> int option" where
  "as_int (PInt n) = Some n"
| "as_int (PBool b) = Some (if b then 1 else 0)"
| "as_int PNone = None"
| "as_int (PStr s) = None"
| "as_int (PList xs) = None"
| "as_int (PDict d) = None"

datatype error =
    HTTPException nat string
  | KeyError string
  | TypeError
  | AttributeError
  | ReadError

text \<open>\<^verbatim>\<open>d[k]\<close> on a dictionary.\<close>

definition getitem :: "pydict \<Rightarrow> string \<Rightarrow> error + pyval" where
  "getitem d k = (case map_of d k of None \<Rightarrow> Inl (KeyError k) | Some v \<Rightarrow> Inr v)"

record state =
  books :: "(pykey \<times> pydict) list"
  rentals :: "(string \<times> pydict) list"

text \<open>The body \<^verbatim>\<open>{"message": ..., "rental_id": ..., "book": ...}\<close> of a rent or return response.\<close>

datatype response = Response (resp_message: string) (resp_rental_id: string) (resp_book: pydict)

section \<open>Rent Book\<close>

text \<open>
  \<^verbatim>\<open>any(rental["user_id"] == user_id and rental["book_id"] == book_id and
       rental["returned_at"] is None for rental in rentals.values())\<close>:
  \<^verbatim>\<open>and\<close> reads the next key only when the previous test held, and \<^verbatim>\<open>any\<close> stops at the
  first rental that matches.
\<close>

fun user_has_book :: "string \<Rightarrow> string \<Rightarrow> pydict list \<Rightarrow> error + bool" where
  "user_has_book user_id book_id [] = Inr False"
| "user_has_book user_id book_id (rental # rs) =
     (case getitem rental ''user_id'' of
        Inl e \<Rightarrow> Inl e
      | Inr ru \<Rightarrow>
          if ru \<noteq> PStr user_id then user_has_book user_id book_id rs
          else (case getitem rental ''book_id'' of
                  Inl e \<Rightarrow> Inl e
                | Inr rb \<Rightarrow>
                    if rb \<noteq> PStr book_id then user_has_book user_id book_id rs
                    else (case getitem rental ''returned_at'' of
                            Inl e \<Rightarrow> Inl e
                          | Inr rt \<Rightarrow>
                              if rt = PNone then Inr True
                              else user_has_book user_id book_id rs)))"

text \<open>The dictionary literal stored in the ledger by a successful rent.\<close>

definition new_rental :: "string \<Rightarrow> string \<Rightarrow> string \<Rightarrow> pydict" where
  "new_rental user_id book_id now =
     [(''user_id'', PStr user_id),
      (''book_id'', PStr book_id),
      (''rented_at'', PStr now),
      (''returned_at'', PNone)]"

text \<open>
  \<open>rent_book s book_id user_id rid now\<close>: \<open>rid\<close> is the value of \<^verbatim>\<open>str(uuid.uuid4())\<close> and
  \<open>now\<close> the value of \<^verbatim>\<open>datetime.now().isoformat()\<close> at this call. The result is what the
  handler returns or raises, together with the two dictionaries as the call leaves them.
\<close>

definition rent_book ::
  "state \<Rightarrow> string \<Rightarrow> string \<Rightarrow> string \<Rightarrow> string \<Rightarrow> (error + response) \<times> state" where
  "rent_book s book_id user_id rid now =
     (case map_of (books s) (KStr book_id) of
        None \<Rightarrow> (Inl (HTTPException 404 ''Book was not found''), s)
      | Some bk \<Rightarrow>
          (case getitem bk ''available_copies'' of
             Inl e \<Rightarrow> (Inl e, s)
           | Inr av \<Rightarrow>
               (case as_int av of
                  None \<Rightarrow> (Inl TypeError, s)
                | Some n \<Rightarrow>
                    if n \<le> 0 then
                      (Inl (HTTPException 400
                         ''There are no copies of this book available for rent''), s)
                    else
                      (case user_has_book user_id book_id (map snd (rentals s)) of
                         Inl e \<Rightarrow> (Inl e, s)
                       | Inr True \<Rightarrow>
                           (Inl (HTTPException 400 ''Book already rented by this user''), s)
                       | Inr False \<Rightarrow>
                           (let bk' = AList.update ''available_copies'' (PInt (n - 1)) bk
                            in (Inr (Response ''Book rented successfully'' rid bk'),
                                \<lparr>books = AList.update (KStr book_id) bk' (books s),
                                 rentals = AList.update rid
                                   (new_rental user_id book_id now) (rentals s)\<rparr>))))))"

section \<open>Return Book\<close>

text \<open>
  \<open>return_book s rental_id user_id now\<close>. The handler stores the return timestamp before
  it executes \<^verbatim>\<open>book["available_copies"] += 1\<close>, so when that statement raises, the
  rental stays marked as returned.
\<close>

definition return_book ::
  "state \<Rightarrow> string \<Rightarrow> string \<Rightarrow> string \<Rightarrow> (error + response) \<times> state" where
  "return_book s rid user_id now =
     (case map_of (rentals s) rid of
        None \<Rightarrow> (Inl (HTTPException 404 ''Rental not found''), s)
      | Some rental \<Rightarrow>
          (case getitem rental ''user_id'' of
             Inl e \<Rightarrow> (Inl e, s)
           | Inr ru \<Rightarrow>
               if ru \<noteq> PStr user_id then
                 (Inl (HTTPException 403
                    ''Unauthorized: This rental belongs to another user''), s)
               else
                 (case getitem rental ''returned_at'' of
                    Inl e \<Rightarrow> (Inl e, s)
                  | Inr rt \<Rightarrow>
                      if rt \<noteq> PNone then
                        (Inl (HTTPException 400 ''Book already returned''), s)
                      else
                        (case getitem rental ''book_id'' of
                           Inl e \<Rightarrow> (Inl e, s)
                         | Inr bid \<Rightarrow>
                             (case to_key bid of
                                None \<Rightarrow> (Inl TypeError, s)
                              | Some k \<Rightarrow>
                                  (case map_of (books s) k of
                                     None \<Rightarrow> (Inl (HTTPException 404 ''Book not found''), s)
                                   | Some bk \<Rightarrow>
                                       if bk = [] then
                                         (Inl (HTTPException 404 ''Book not found''), s)
                                       else
                                         (let rental' = AList.update ''returned_at''
                                                          (PStr now) rental;
                                              s1 = s\<lparr>rentals :=
                                                     AList.update rid rental' (rentals s)\<rparr>
                                          in (case getitem bk ''available_copies'' of
                                                Inl e \<Rightarrow> (Inl e, s1)
                                              | Inr av \<Rightarrow>
                                                  (case as_int av of
                                                     None \<Rightarrow> (Inl TypeError, s1)
                                                   | Some n \<Rightarrow>
                                                       (let bk' = AList.update
                                                              ''available_copies''
                                                              (PInt (n + 1)) bk
                                                        in (Inr (Response
                                                              ''Book returned successfully''
                                                              rid bk'),
                                                            s1\<lparr>books :=
                                                              AList.update k bk'
                                                                (books s)\<rparr>)))))))))))"

section \<open>List Books, Get Book Details\<close>

text \<open>\<^verbatim>\<open>list(books.values())\<close>.\<close>

definition list_books :: "state \<Rightarrow> pydict list" where
  "list_books s = map snd (books s)"

text \<open>\<^verbatim>\<open>if book:\<close> is false for a missing key and for an empty dictionary.\<close>

definition display_details :: "state \<Rightarrow> string \<Rightarrow> error + pydict" where
  "display_details s book_id =
     (case map_of (books s) (KStr book_id) of
        None \<Rightarrow> Inl (HTTPException 404 ''Book was not found'')
      | Some bk \<Rightarrow> if bk = [] then Inl (HTTPException 404 ''Book was not found'') else Inr bk)"

section \<open>List User's Active Rentals\<close>

text \<open>
  The comprehension
  \<^verbatim>\<open>[rental for rental in rentals.values()
     if rental["user_id"] == user_id and rental["returned_at"] is None]\<close>.
\<close>

fun user_rentals :: "string \<Rightarrow> pydict list \<Rightarrow> error + pydict list" where
  "user_rentals user_id [] = Inr []"
| "user_rentals user_id (rental # rs) =
     (case getitem rental ''user_id'' of
        Inl e \<Rightarrow> Inl e
      | Inr ru \<Rightarrow>
          if ru \<noteq> PStr user_id then user_rentals user_id rs
          else (case getitem rental ''returned_at'' of
                  Inl e \<Rightarrow> Inl e
                | Inr rt \<Rightarrow>
                    if rt = PNone then
                      (case user_rentals user_id rs of
                         Inl e \<Rightarrow> Inl e
                       | Inr rest \<Rightarrow> Inr (rental # rest))
                    else user_rentals user_id rs))"

text \<open>
  The three statements that build one entry: a copy of the book, then
  \<^verbatim>\<open>book_info["rental_id"] = rental["rental_id"] if "rental_id" in rental else None\<close>
  and \<^verbatim>\<open>book_info["rented_at"] = rental["rented_at"]\<close>.
\<close>

definition book_info :: "pydict \<Rightarrow> pydict \<Rightarrow> error + pydict" where
  "book_info bk rental =
     (let info = AList.update ''rental_id''
                   (case map_of rental ''rental_id'' of None \<Rightarrow> PNone | Some v \<Rightarrow> v) bk
      in (case getitem rental ''rented_at'' of
            Inl e \<Rightarrow> Inl e
          | Inr t \<Rightarrow> Inr (AList.update ''rented_at'' t info)))"

text \<open>The loop over \<^verbatim>\<open>user_rentals\<close>; a rental whose book is not in the catalog is skipped.\<close>

fun user_books :: "(pykey \<times> pydict) list \<Rightarrow> pydict list \<Rightarrow> error + pydict list" where
  "user_books bs [] = Inr []"
| "user_books bs (rental # rs) =
     (case getitem rental ''book_id'' of
        Inl e \<Rightarrow> Inl e
      | Inr book_id \<Rightarrow>
          (case to_key book_id of
             None \<Rightarrow> Inl TypeError
           | Some k \<Rightarrow>
               (case map_of bs k of
                  None \<Rightarrow> user_books bs rs
                | Some bk \<Rightarrow>
                    (case book_info bk rental of
                       Inl e \<Rightarrow> Inl e
                     | Inr info \<Rightarrow>
                         (case user_books bs rs of
                            Inl e \<Rightarrow> Inl e
                          | Inr rest \<Rightarrow> Inr (info # rest))))))"

text \<open>
  The handler assigns to neither dictionary and changes no book (every entry is built on
  a copy), so its model returns the response only.
\<close>

definition list_user_books :: "state \<Rightarrow> string \<Rightarrow> error + pydict list" where
  "list_user_books s user_id =
     (case user_rentals user_id (map snd (rentals s)) of
        Inl e \<Rightarrow> Inl e
      | Inr urs \<Rightarrow> user_books (books s) urs)"

section \<open>Catalog load\<close>

text \<open>
  \<^verbatim>\<open>for book in data.get("books", [])\<close>: the elements of a list, the keys of a
  dictionary, the characters of a string; anything else is not iterable.
\<close>

fun iter_items :: "pyval \<Rightarrow> error + pyval list" where
  "iter_items (PList xs) = Inr xs"
| "iter_items (PDict d) = Inr (map (\<lambda>kv. PStr (fst kv)) d)"
| "iter_items (PStr cs) = Inr (map (\<lambda>c. PStr [c]) cs)"
| "iter_items PNone = Inl TypeError"
| "iter_items (PBool b) = Inl TypeError"
| "iter_items (PInt n) = Inl TypeError"

text \<open>One step of the comprehension: \<^verbatim>\<open>book["isbn"]\<close>, which must be hashable.\<close>

fun entry_key :: "pyval \<Rightarrow> error + (pykey \<times> pydict)" where
  "entry_key (PDict d) =
     (case getitem d ''isbn'' of
        Inl e \<Rightarrow> Inl e
      | Inr v \<Rightarrow> (case to_key v of None \<Rightarrow> Inl TypeError | Some k \<Rightarrow> Inr (k, d)))"
| "entry_key PNone = Inl TypeError"
| "entry_key (PBool b) = Inl TypeError"
| "entry_key (PInt n) = Inl TypeError"
| "entry_key (PStr cs) = Inl TypeError"
| "entry_key (PList xs) = Inl TypeError"

text \<open>
  \<^verbatim>\<open>{book["isbn"]: book for book in ...}\<close>, built from left to right: a later entry with
  the same key replaces the earlier one.
\<close>

fun build_books :: "pyval list \<Rightarrow> (pykey \<times> pydict) list \<Rightarrow> error + (pykey \<times> pydict) list" where
  "build_books [] acc = Inr acc"
| "build_books (book # rest) acc =
     (case entry_key book of
        Inl e \<Rightarrow> Inl e
      | Inr (k, d) \<Rightarrow> build_books rest (AList.update k d acc))"

text \<open>
  \<^verbatim>\<open>if "available_copies" not in book: book["available_copies"] = book["totalCopies"]\<close>.
\<close>

definition init_available :: "pydict \<Rightarrow> error + pydict" where
  "init_available bk =
     (case map_of bk ''available_copies'' of
        Some v \<Rightarrow> Inr bk
      | None \<Rightarrow>
          (case getitem bk ''totalCopies'' of
             Inl e \<Rightarrow> Inl e
           | Inr t \<Rightarrow> Inr (AList.update ''available_copies'' t bk)))"

fun init_all :: "(pykey \<times> pydict) list \<Rightarrow> error + (pykey \<times> pydict) list" where
  "init_all [] = Inr []"
| "init_all ((k, bk) # rest) =
     (case init_available bk of
        Inl e \<Rightarrow> Inl e
      | Inr bk' \<Rightarrow> (case init_all rest of Inl e \<Rightarrow> Inl e | Inr rest' \<Rightarrow> Inr ((k, bk') # rest')))"

text \<open>
  The body of the \<^verbatim>\<open>try\<close> block. The argument is the value of \<^verbatim>\<open>json.load(file)\<close>, or
  \<open>None\<close> when opening or parsing the file raised.
\<close>

definition load_try :: "pyval option \<Rightarrow> error + (pykey \<times> pydict) list" where
  "load_try file =
     (case file of
        None \<Rightarrow> Inl ReadError
      | Some (PDict d) \<Rightarrow>
          (case iter_items (case map_of d ''books'' of None \<Rightarrow> PList [] | Some v \<Rightarrow> v) of
             Inl e \<Rightarrow> Inl e
           | Inr items \<Rightarrow>
               (case build_books items [] of
                  Inl e \<Rightarrow> Inl e
                | Inr bs \<Rightarrow> init_all bs))
      | Some _ \<Rightarrow> Inl AttributeError)"

text \<open>\<^verbatim>\<open>except Exception: books = {}\<close>. The result is the catalog after startup.\<close>

definition load :: "pyval option \<Rightarrow> (pykey \<times> pydict) list" where
  "load file = (case load_try file of Inl e \<Rightarrow> [] | Inr bs \<Rightarrow> bs)"

section \<open>Sequences of requests\<close>

text \<open>
  A request to one of the five routes; a rent carries the identifier and the time that
  \<^verbatim>\<open>uuid4\<close> and \<^verbatim>\<open>datetime.now\<close> give during the call, a return carries the time.
\<close>

datatype request =
    ListBooks
  | DisplayDetails string
  | RentBook string string string string
  | ListUserBooks string
  | ReturnBook string string string

fun handle :: "state \<Rightarrow> request \<Rightarrow> state" where
  "handle s ListBooks = s"
| "handle s (DisplayDetails book_id) = s"
| "handle s (RentBook book_id user_id rid now) = snd (rent_book s book_id user_id rid now)"
| "handle s (ListUserBooks user_id) = s"
| "handle s (ReturnBook rid user_id now) = snd (return_book s rid user_id now)"

definition run :: "state \<Rightarrow> request list \<Rightarrow> state" where
  "run s reqs = foldl handle s reqs"

section \<open>Vocabulary of the specification\<close>

text \<open>The three error kinds and their status codes.\<close>

definition NotFound :: "string \<Rightarrow> error" where
  "NotFound = HTTPException 404"

definition InvalidState :: "string \<Rightarrow> error" where
  "InvalidState = HTTPException 400"

definition Forbidden :: "string \<Rightarrow> error" where
  "Forbidden = HTTPException 403"

text \<open>
  The copy counts of a book record, when they are numbers. No handler reads the total;
  the \<^verbatim>\<open>Book\<close> model calls its field \<^verbatim>\<open>total_copies\<close> and the loader reads it from
  \<^verbatim>\<open>totalCopies\<close>, so the name \<open>tc\<close> of the field is an argument.
\<close>

definition available_copies :: "pydict \<Rightarrow> int option" where
  "available_copies bk =
     (case map_of bk ''available_copies'' of None \<Rightarrow> None | Some v \<Rightarrow> as_int v)"

definition total_copies :: "string \<Rightarrow> pydict \<Rightarrow> int option" where
  "total_copies tc bk =
     (case map_of bk tc of None \<Rightarrow> None | Some v \<Rightarrow> as_int v)"

text \<open>The invariant \<open>0 \<le> available_copies \<le> total_copies\<close> of a book.\<close>

definition copies_ok :: "string \<Rightarrow> pydict \<Rightarrow> bool" where
  "copies_ok tc bk =
     (case available_copies bk of
        None \<Rightarrow> False
      | Some a \<Rightarrow> (case total_copies tc bk of None \<Rightarrow> False | Some t \<Rightarrow> 0 \<le> a \<and> a \<le> t))"

text \<open>
  A rental record as the data model describes it and as Rent Book writes it: user and
  book identifier and rental time are strings, the return time is null or a string.
\<close>

fun is_str :: "pyval \<Rightarrow> bool" where
  "is_str (PStr s) = True"
| "is_str PNone = False"
| "is_str (PBool b) = False"
| "is_str (PInt n) = False"
| "is_str (PList xs) = False"
| "is_str (PDict d) = False"

definition is_rental :: "pydict \<Rightarrow> bool" where
  "is_rental r =
     (case map_of r ''user_id'' of None \<Rightarrow> False | Some u \<Rightarrow>
     (case map_of r ''book_id'' of None \<Rightarrow> False | Some b \<Rightarrow>
     (case map_of r ''rented_at'' of None \<Rightarrow> False | Some t \<Rightarrow>
     (case map_of r ''returned_at'' of None \<Rightarrow> False | Some rt \<Rightarrow>
        is_str u \<and> is_str b \<and> is_str t \<and> (rt = PNone \<or> is_str rt)))))"

text \<open>An outstanding rental of the pair (user, book), and an outstanding rental of a user.\<close>

definition outstanding_for :: "string \<Rightarrow> string \<Rightarrow> pydict \<Rightarrow> bool" where
  "outstanding_for user_id book_id r =
     (map_of r ''user_id'' = Some (PStr user_id) \<and>
      map_of r ''book_id'' = Some (PStr book_id) \<and>
      map_of r ''returned_at'' = Some PNone)"

definition outstanding_of :: "string \<Rightarrow> pydict \<Rightarrow> bool" where
  "outstanding_of user_id r =
     (map_of r ''user_id'' = Some (PStr user_id) \<and> map_of r ''returned_at'' = Some PNone)"

text \<open>The available-copy count of the book stored under a string identifier.\<close>

definition copies_of :: "state \<Rightarrow> string \<Rightarrow> int option" where
  "copies_of s book_id =
     (case map_of (books s) (KStr book_id) of None \<Rightarrow> None | Some bk \<Rightarrow> available_copies bk)"

text \<open>
  The book record a rental points to: its \<open>book_id\<close>, hashed, looked up in the catalog.
\<close>

definition book_of :: "(pykey \<times> pydict) list \<Rightarrow> pydict \<Rightarrow> pydict option" where
  "book_of bs r =
     (case map_of r ''book_id'' of
        None \<Rightarrow> None
      | Some bid \<Rightarrow> (case to_key bid of None \<Rightarrow> None | Some k \<Rightarrow> map_of bs k))"

text \<open>
  Bookkeeping for the invariant: \<open>refers_to k r\<close> says that rental \<open>r\<close> is outstanding and
  points to the catalog key \<open>k\<close>; \<open>on_loan s k\<close> counts such rentals; in an \<open>accounted\<close>
  state every book satisfies the invariant and, for the book stored under each key, the
  available copies and the copies on loan together do not exceed the total.
\<close>

definition refers_to :: "pykey \<Rightarrow> pydict \<Rightarrow> bool" where
  "refers_to k r =
     (map_of r ''returned_at'' = Some PNone \<and>
      (case map_of r ''book_id'' of None \<Rightarrow> False | Some bid \<Rightarrow> to_key bid = Some k))"

definition on_loan :: "state \<Rightarrow> pykey \<Rightarrow> nat" where
  "on_loan s k = length (filter (refers_to k) (map snd (rentals s)))"

definition accounted :: "string \<Rightarrow> state \<Rightarrow> bool" where
  "accounted tc s =
     ((\<forall>kb\<in>set (books s). copies_ok tc (snd kb)) \<and>
      (\<forall>k bk a t. map_of (books s) k = Some bk \<longrightarrow> available_copies bk = Some a \<longrightarrow>
                   total_copies tc bk = Some t \<longrightarrow> a + int (on_loan s k) \<le> t))"

text \<open>
  The entries of the source data that the loader iterates over: the elements of
  \<^verbatim>\<open>data.get("books", [])\<close>, and none when the data cannot be iterated.
\<close>

definition source_entries :: "pyval option \<Rightarrow> pyval list" where
  "source_entries file =
     (case file of
        Some (PDict d) \<Rightarrow>
          (case iter_items (case map_of d ''books'' of None \<Rightarrow> PList [] | Some v \<Rightarrow> v) of
             Inl e \<Rightarrow> []
           | Inr items \<Rightarrow> items)
      | _ \<Rightarrow> [])"

section \<open>Example states\<close>

text \<open>Book 123 has two copies in total; \<open>book_123 a\<close> is its record with \<open>a\<close> available.\<close>

definition book_123 :: "int \<Rightarrow> pydict" where
  "book_123 a =
     [(''isbn'', PStr ''123''), (''title'', PStr ''Dune''), (''author'', PStr ''Herbert''),
      (''total_copies'', PInt 2), (''available_copies'', PInt a)]"

definition rental_123 :: "string \<Rightarrow> string \<Rightarrow> pyval \<Rightarrow> pydict" where
  "rental_123 user_id t rt =
     [(''user_id'', PStr user_id), (''book_id'', PStr ''123''),
      (''rented_at'', PStr t), (''returned_at'', rt)]"

definition start :: state where
  "start = \<lparr>books = [(KStr ''123'', book_123 2)], rentals = []\<rparr>"

text \<open>Alice holds one copy under rental \<open>r1\<close>; then she has returned it.\<close>

definition rented :: state where
  "rented = \<lparr>books = [(KStr ''123'', book_123 1)],
             rentals = [(''r1'', rental_123 ''alice'' ''t1'' PNone)]\<rparr>"

definition returned :: state where
  "returned = \<lparr>books = [(KStr ''123'', book_123 2)],
               rentals = [(''r1'', rental_123 ''alice'' ''t1'' (PStr ''t2''))]\<rparr>"

text \<open>Alice and Bob hold the two copies.\<close>

definition sold_out :: state where
  "sold_out = \<lparr>books = [(KStr ''123'', book_123 0)],
               rentals = [(''r1'', rental_123 ''alice'' ''t1'' PNone),
                          (''r2'', rental_123 ''bob'' ''t2'' PNone)]\<rparr>"

text \<open>
  A corrupted ledger: rental \<open>r1\<close> is outstanding although both copies are on the shelf.
\<close>

definition corrupted :: state where
  "corrupted = \<lparr>books = [(KStr ''123'', book_123 2)],
                rentals = [(''r1'', rental_123 ''alice'' ''t1'' PNone)]\<rparr>"

text \<open>
  Two source documents. In the first, one entry leaves the available count to the loader
  and one gives it. In the second, an entry has neither \<open>available_copies\<close> nor
  \<open>totalCopies\<close>.
\<close>

definition books_json :: pyval where
  "books_json =
     PDict [(''books'', PList
       [PDict [(''isbn'', PStr ''123''), (''title'', PStr ''Dune''), (''totalCopies'', PInt 2)],
        PDict [(''isbn'', PStr ''456''), (''title'', PStr ''Emma''), (''totalCopies'', PInt 3),
               (''available_copies'', PInt 1)]])]"

definition broken_json :: pyval where
  "broken_json =
     PDict [(''books'', PList
       [PDict [(''isbn'', PStr ''123''), (''title'', PStr ''Dune''), (''totalCopies'', PInt 2)],
        PDict [(''isbn'', PStr ''456''), (''title'', PStr ''Emma''),
               (''total_copies'', PInt 3)]])]"

lemmas example_defs =
  start_def rented_def returned_def sold_out_def corrupted_def book_123_def rental_123_def

section \<open>Basic facts\<close>

text \<open>Writing a key that is present replaces its first entry; a new key goes to the end.\<close>

lemma update_existing:
  "map_of al k = Some v \<Longrightarrow>
   \<exists>pre post. al = pre @ (k, v) # post \<and> k \<notin> fst ` set pre \<and>
              AList.update k v' al = pre @ (k, v') # post"
proof (induction al)
  case Nil
  then show ?case by simp
next
  case (Cons p al)
  show ?case
  proof (cases "fst p = k")
    case True
    with Cons.prems have "p = (k, v)" by (cases p) simp
    then have "p # al = [] @ (k, v) # al \<and> k \<notin> fst ` set [] \<and>
               AList.update k v' (p # al) = [] @ (k, v') # al"
      by simp
    then show ?thesis by blast
  next
    case False
    with Cons.prems have "map_of al k = Some v" by (cases p) (simp split: if_splits)
    from Cons.IH [OF this] obtain pre post where
      "al = pre @ (k, v) # post" "k \<notin> fst ` set pre"
      "AList.update k v' al = pre @ (k, v') # post" by blast
    with False have "p # al = (p # pre) @ (k, v) # post \<and> k \<notin> fst ` set (p # pre) \<and>
               AList.update k v' (p # al) = (p # pre) @ (k, v') # post"
      by auto
    then show ?thesis by blast
  qed
qed


text \<open>On well-formed rentals the \<^verbatim>\<open>any(...)\<close> of Rent Book raises nothing.\<close>

lemma user_has_book_spec:
  "list_all is_rental rs \<Longrightarrow>
   user_has_book u b rs = Inr (\<exists>r\<in>set rs. outstanding_for u b r)"
  by (induction rs)
     (auto simp: is_rental_def getitem_def outstanding_for_def split: option.splits)

text \<open>What a successful rent or return says about the state before it and after it.\<close>

lemma rent_book_Inr:
  assumes "rent_book s b u rid now = (Inr resp, s')"
  shows "\<exists>bk av n.
           map_of (books s) (KStr b) = Some bk \<and>
           map_of bk ''available_copies'' = Some av \<and>
           as_int av = Some n \<and> 0 < n \<and>
           user_has_book u b (map snd (rentals s)) = Inr False \<and>
           resp = Response ''Book rented successfully'' rid
                    (AList.update ''available_copies'' (PInt (n - 1)) bk) \<and>
           s' = \<lparr>books = AList.update (KStr b)
                           (AList.update ''available_copies'' (PInt (n - 1)) bk) (books s),
                 rentals = AList.update rid (new_rental u b now) (rentals s)\<rparr>"
  using assms
  by (auto simp: rent_book_def getitem_def Let_def
      split: option.splits sum.splits if_splits bool.splits)

lemma return_book_Inr:
  assumes "return_book s rid u now = (Inr resp, s')"
  shows "\<exists>rental bid k bk av n.
           map_of (rentals s) rid = Some rental \<and>
           map_of rental ''user_id'' = Some (PStr u) \<and>
           map_of rental ''returned_at'' = Some PNone \<and>
           map_of rental ''book_id'' = Some bid \<and>
           to_key bid = Some k \<and>
           map_of (books s) k = Some bk \<and> bk \<noteq> [] \<and>
           map_of bk ''available_copies'' = Some av \<and>
           as_int av = Some n \<and>
           resp = Response ''Book returned successfully'' rid
                    (AList.update ''available_copies'' (PInt (n + 1)) bk) \<and>
           s' = \<lparr>books = AList.update k
                           (AList.update ''available_copies'' (PInt (n + 1)) bk) (books s),
                 rentals = AList.update rid
                           (AList.update ''returned_at'' (PStr now) rental) (rentals s)\<rparr>"
  using assms
  by (auto simp: return_book_def getitem_def Let_def
      split: option.splits sum.splits if_splits)

section \<open>A rental is returned at most once\<close>




section \<open>Failed requests change nothing\<close>

text \<open>
  C5. When Rent Book or Return Book fails with an HTTP error (NotFound, InvalidState or
  Forbidden), both dictionaries are as they were before the call. In particular a return
  whose user identifier differs from the one stored in the rental fails with Forbidden and
  changes nothing.
\<close>

theorem errors_change_nothing:
  "(fst (rent_book s book_id user_id rid now) = Inl (HTTPException c m) \<longrightarrow>
      snd (rent_book s book_id user_id rid now) = s) \<and>
   (fst (return_book s rid' user_id' now') = Inl (HTTPException c' m') \<longrightarrow>
      snd (return_book s rid' user_id' now') = s) \<and>
   (map_of (rentals s) rid' = Some rental \<and> map_of rental ''user_id'' = Some v \<and>
    v \<noteq> PStr user_id' \<longrightarrow>
      return_book s rid' user_id' now' =
        (Inl (Forbidden ''Unauthorized: This rental belongs to another user''), s))"
proof (intro conjI impI)
  assume "fst (rent_book s book_id user_id rid now) = Inl (HTTPException c m)"
  then show "snd (rent_book s book_id user_id rid now) = s"
    by (auto simp: rent_book_def getitem_def Let_def
        split: option.splits sum.splits if_splits bool.splits)
next
  assume "fst (return_book s rid' user_id' now') = Inl (HTTPException c' m')"
  then show "snd (return_book s rid' user_id' now') = s"
    by (auto simp: return_book_def getitem_def Let_def
        split: option.splits sum.splits if_splits)
next
  assume "map_of (rentals s) rid' = Some rental \<and> map_of rental ''user_id'' = Some v \<and>
    v \<noteq> PStr user_id'"
  then show "return_book s rid' user_id' now' =
        (Inl (Forbidden ''Unauthorized: This rental belongs to another user''), s)"
    by (simp add: return_book_def getitem_def Forbidden_def)
qed

theorem errors_change_nothing_witness:
  "fst (rent_book rented ''123'' ''alice'' ''r2'' ''t2'') =
     Inl (HTTPException 400 ''Book already rented by this user'') \<and>
   snd (rent_book rented ''123'' ''alice'' ''r2'' ''t2'') = rented \<and>
   fst (return_book rented ''r9'' ''alice'' ''t2'') =
     Inl (HTTPException 404 ''Rental not found'') \<and>
   snd (return_book rented ''r9'' ''alice'' ''t2'') = rented \<and>
   map_of (rentals rented) ''r1'' = Some (rental_123 ''alice'' ''t1'' PNone) \<and>
   map_of (rental_123 ''alice'' ''t1'' PNone) ''user_id'' = Some (PStr ''alice'') \<and>
   PStr ''alice'' \<noteq> PStr ''bob'' \<and>
   return_book rented ''r1'' ''bob'' ''t2'' =
     (Inl (Forbidden ''Unauthorized: This rental belongs to another user''), rented)"
proof -
  have a: "fst (rent_book rented ''123'' ''alice'' ''r2'' ''t2'') =
     Inl (HTTPException 400 ''Book already rented by this user'')"
    by (simp add: rent_book_def example_defs getitem_def)
  have b: "fst (return_book rented ''r9'' ''alice'' ''t2'') =
     Inl (HTTPException 404 ''Rental not found'')"
    by (simp add: return_book_def example_defs)
  have c: "map_of (rentals rented) ''r1'' = Some (rental_123 ''alice'' ''t1'' PNone)"
    by (simp add: rented_def)
  have d: "map_of (rental_123 ''alice'' ''t1'' PNone) ''user_id'' = Some (PStr ''alice'')"
    by (simp add: rental_123_def)
  have e: "PStr ''alice'' \<noteq> PStr ''bob''"
    by simp
  show ?thesis
    using a b c d e
      errors_change_nothing [of rented "''123''" "''alice''" "''r2''" "''t2''" 400
        "''Book already rented by this user''" "''r9''" "''alice''" "''t2''" 404
        "''Rental not found''"]
      errors_change_nothing [of rented "''123''" "''alice''" "''r2''" "''t2''" 400
        "''Book already rented by this user''" "''r1''" "''bob''" "''t2''" 404
        "''Rental not found''" "rental_123 ''alice'' ''t1'' PNone" "PStr ''alice''"]
    by simp
qed

section \<open>Rent Book: the order of the checks\<close>

text \<open>
  C2. On a ledger of rental records, Rent Book fails with NotFound (404) when the book
  identifier is not in the catalog; otherwise, the book's available-copy count being \<open>n\<close>,
  it fails with InvalidState (400) when \<open>n\<close> is not greater than zero; otherwise it fails
  with InvalidState (400) when the ledger holds an outstanding rental of this user and this
  book; otherwise it succeeds.
\<close>

theorem rent_book_checks:
  assumes "list_all (\<lambda>kr. is_rental (snd kr)) (rentals s)"
  shows "(map_of (books s) (KStr book_id) = None \<longrightarrow>
            fst (rent_book s book_id user_id rid now) =
              Inl (NotFound ''Book was not found'')) \<and>
         (\<forall>bk n. map_of (books s) (KStr book_id) = Some bk \<and> available_copies bk = Some n \<longrightarrow>
            fst (rent_book s book_id user_id rid now) =
              (if \<not> 0 < n then
                 Inl (InvalidState ''There are no copies of this book available for rent'')
               else if \<exists>r\<in>set (map snd (rentals s)). outstanding_for user_id book_id r then
                 Inl (InvalidState ''Book already rented by this user'')
               else
                 Inr (Response ''Book rented successfully'' rid
                       (AList.update ''available_copies'' (PInt (n - 1)) bk))))"
proof (intro conjI allI impI)
  assume "map_of (books s) (KStr book_id) = None"
  then show "fst (rent_book s book_id user_id rid now) = Inl (NotFound ''Book was not found'')"
    by (simp add: rent_book_def NotFound_def)
next
  fix bk n
  assume "map_of (books s) (KStr book_id) = Some bk \<and> available_copies bk = Some n"
  then obtain av where
    bk: "map_of (books s) (KStr book_id) = Some bk" and
    av: "map_of bk ''available_copies'' = Some av" "as_int av = Some n"
    by (auto simp: available_copies_def split: option.splits)
  have "list_all is_rental (map snd (rentals s))"
    using assms by (simp add: list_all_iff)
  from user_has_book_spec [OF this, of user_id book_id] bk av
  show "fst (rent_book s book_id user_id rid now) =
              (if \<not> 0 < n then
                 Inl (InvalidState ''There are no copies of this book available for rent'')
               else if \<exists>r\<in>set (map snd (rentals s)). outstanding_for user_id book_id r then
                 Inl (InvalidState ''Book already rented by this user'')
               else
                 Inr (Response ''Book rented successfully'' rid
                       (AList.update ''available_copies'' (PInt (n - 1)) bk)))"
    by (simp add: rent_book_def getitem_def InvalidState_def Let_def)
qed

theorem rent_book_checks_witness:
  "list_all (\<lambda>kr. is_rental (snd kr)) (rentals rented) \<and>
   list_all (\<lambda>kr. is_rental (snd kr)) (rentals sold_out) \<and>
   map_of (books rented) (KStr ''999'') = None \<and>
   fst (rent_book rented ''999'' ''bob'' ''r2'' ''t2'') =
     Inl (NotFound ''Book was not found'') \<and>
   map_of (books sold_out) (KStr ''123'') = Some (book_123 0) \<and>
   available_copies (book_123 0) = Some 0 \<and>
   fst (rent_book sold_out ''123'' ''carol'' ''r3'' ''t3'') =
     Inl (InvalidState ''There are no copies of this book available for rent'') \<and>
   map_of (books rented) (KStr ''123'') = Some (book_123 1) \<and>
   available_copies (book_123 1) = Some 1 \<and>
   fst (rent_book rented ''123'' ''alice'' ''r2'' ''t2'') =
     Inl (InvalidState ''Book already rented by this user'') \<and>
   fst (rent_book rented ''123'' ''bob'' ''r2'' ''t2'') =
     Inr (Response ''Book rented successfully'' ''r2'' (book_123 0))"
proof -
  have h: "list_all (\<lambda>kr. is_rental (snd kr)) (rentals rented)"
    "list_all (\<lambda>kr. is_rental (snd kr)) (rentals sold_out)"
    by (simp_all add: example_defs is_rental_def)
  have a: "available_copies (book_123 1) = Some 1" "available_copies (book_123 0) = Some 0"
    by (simp_all add: available_copies_def book_123_def)
  have m: "map_of (books rented) (KStr ''999'') = None"
    "map_of (books rented) (KStr ''123'') = Some (book_123 1)"
    "map_of (books sold_out) (KStr ''123'') = Some (book_123 0)"
    by (simp_all add: rented_def sold_out_def)
  have o: "\<exists>r\<in>set (map snd (rentals rented)). outstanding_for ''alice'' ''123'' r"
    "\<not> (\<exists>r\<in>set (map snd (rentals rented)). outstanding_for ''bob'' ''123'' r)"
    by (simp_all add: example_defs outstanding_for_def)
  have u: "AList.update ''available_copies'' (PInt (1 - 1)) (book_123 1) = book_123 0"
    by (simp add: book_123_def)
  from rent_book_checks [OF h(1), of "''999''" "''bob''" "''r2''" "''t2''"] m(1)
  have 1: "fst (rent_book rented ''999'' ''bob'' ''r2'' ''t2'') =
     Inl (NotFound ''Book was not found'')"
    by blast
  from rent_book_checks [OF h(2), of "''123''" "''carol''" "''r3''" "''t3''"] m(3) a(2)
  have 2: "fst (rent_book sold_out ''123'' ''carol'' ''r3'' ''t3'') =
     Inl (InvalidState ''There are no copies of this book available for rent'')"
    by simp
  from rent_book_checks [OF h(1), of "''123''" "''alice''" "''r2''" "''t2''"] m(2) a(1) o(1)
  have 3: "fst (rent_book rented ''123'' ''alice'' ''r2'' ''t2'') =
     Inl (InvalidState ''Book already rented by this user'')"
    by simp
  from rent_book_checks [OF h(1), of "''123''" "''bob''" "''r2''" "''t2''"] m(2) a(1) o(2) u
  have 4: "fst (rent_book rented ''123'' ''bob'' ''r2'' ''t2'') =
     Inr (Response ''Book rented successfully'' ''r2'' (book_123 0))"
    by simp
  from h m a 1 2 3 4 show ?thesis by simp
qed

section \<open>Rent Book: the effect\<close>



section \<open>Return Book: the effect\<close>

text \<open>
  C4. When the rental exists, belongs to the caller, is outstanding, and its book
  identifier resolves to a book with a numeric available-copy count \<open>n\<close>, then Return Book
  succeeds. It answers with the message, the rental identifier and the updated book. The
  rental's \<open>returned_at\<close> entry becomes the current time and the book's
  \<open>available_copies\<close> entry becomes \<open>n + 1\<close>; nothing else changes. The total-copy count,
  in whichever other field \<open>tc\<close> the book keeps it, is neither read nor changed: when it is
  not above \<open>n\<close>, as a corrupted ledger allows, the available count ends above it.
\<close>

theorem return_book_effect:
  assumes rental: "map_of (rentals s) rid = Some rental"
    and user: "map_of rental ''user_id'' = Some (PStr user_id)"
    and out: "map_of rental ''returned_at'' = Some PNone"
    and bid: "map_of rental ''book_id'' = Some bid" "to_key bid = Some k"
    and bk: "map_of (books s) k = Some bk"
    and n: "available_copies bk = Some n"
    and tc: "tc \<noteq> ''available_copies''"
  shows "\<exists>bk' rental' pre post rpre rpost p q v rp rq.
           return_book s rid user_id now =
             (Inr (Response ''Book returned successfully'' rid bk'),
              \<lparr>books = pre @ (k, bk') # post,
               rentals = rpre @ (rid, rental') # rpost\<rparr>) \<and>
           books s = pre @ (k, bk) # post \<and> k \<notin> fst ` set pre \<and>
           rentals s = rpre @ (rid, rental) # rpost \<and> rid \<notin> fst ` set rpre \<and>
           rental = rp @ (''returned_at'', PNone) # rq \<and> ''returned_at'' \<notin> fst ` set rp \<and>
           rental' = rp @ (''returned_at'', PStr now) # rq \<and>
           bk = p @ (''available_copies'', v) # q \<and> ''available_copies'' \<notin> fst ` set p \<and>
           bk' = p @ (''available_copies'', PInt (n + 1)) # q \<and>
           available_copies bk' = Some (n + 1) \<and>
           total_copies tc bk' = total_copies tc bk \<and>
           (\<forall>t. total_copies tc bk = Some t \<and> t \<le> n \<longrightarrow>
                (\<exists>a. available_copies bk' = Some a \<and> total_copies tc bk' = Some t \<and> t < a))"
proof -
  from n obtain v where v: "map_of bk ''available_copies'' = Some v" "as_int v = Some n"
    by (auto simp: available_copies_def split: option.splits)
  from v(1) have ne: "bk \<noteq> []" by auto
  define bk' where "bk' = AList.update ''available_copies'' (PInt (n + 1)) bk"
  define rental' where "rental' = AList.update ''returned_at'' (PStr now) rental"
  from update_existing [OF v(1), of "PInt (n + 1)"] obtain p q where
    pq: "bk = p @ (''available_copies'', v) # q" "''available_copies'' \<notin> fst ` set p"
      "bk' = p @ (''available_copies'', PInt (n + 1)) # q"
    unfolding bk'_def by blast
  from update_existing [OF out, of "PStr now"] obtain rp rq where
    rr: "rental = rp @ (''returned_at'', PNone) # rq" "''returned_at'' \<notin> fst ` set rp"
      "rental' = rp @ (''returned_at'', PStr now) # rq"
    unfolding rental'_def by blast
  from update_existing [OF bk, of bk'] obtain pre post where
    pp: "books s = pre @ (k, bk) # post" "k \<notin> fst ` set pre"
      "AList.update k bk' (books s) = pre @ (k, bk') # post"
    by blast
  from update_existing [OF rental, of rental'] obtain rpre rpost where
    rpp: "rentals s = rpre @ (rid, rental) # rpost" "rid \<notin> fst ` set rpre"
      "AList.update rid rental' (rentals s) = rpre @ (rid, rental') # rpost"
    by blast
  have res: "return_book s rid user_id now =
             (Inr (Response ''Book returned successfully'' rid bk'),
              \<lparr>books = pre @ (k, bk') # post,
               rentals = rpre @ (rid, rental') # rpost\<rparr>)"
    using rental user out bid bk v ne pp(3) rpp(3)
    by (simp add: return_book_def getitem_def Let_def bk'_def rental'_def)
  have av: "available_copies bk' = Some (n + 1)"
    by (simp add: bk'_def available_copies_def update_conv')
  have tot: "total_copies tc bk' = total_copies tc bk"
    using tc by (simp add: bk'_def total_copies_def update_conv')
  have above: "\<forall>t. total_copies tc bk = Some t \<and> t \<le> n \<longrightarrow>
                (\<exists>a. available_copies bk' = Some a \<and> total_copies tc bk' = Some t \<and> t < a)"
    using av tot by auto
  from res pp(1,2) rpp(1,2) rr pq av tot above show ?thesis by blast
qed

theorem return_book_effect_witness:
  "map_of (rentals corrupted) ''r1'' = Some (rental_123 ''alice'' ''t1'' PNone) \<and>
   map_of (rental_123 ''alice'' ''t1'' PNone) ''user_id'' = Some (PStr ''alice'') \<and>
   map_of (rental_123 ''alice'' ''t1'' PNone) ''returned_at'' = Some PNone \<and>
   map_of (rental_123 ''alice'' ''t1'' PNone) ''book_id'' = Some (PStr ''123'') \<and>
   to_key (PStr ''123'') = Some (KStr ''123'') \<and>
   map_of (books corrupted) (KStr ''123'') = Some (book_123 2) \<and>
   available_copies (book_123 2) = Some 2 \<and>
   total_copies ''total_copies'' (book_123 2) = Some 2 \<and>
   return_book corrupted ''r1'' ''alice'' ''t2'' =
     (Inr (Response ''Book returned successfully'' ''r1'' (book_123 3)),
      \<lparr>books = [(KStr ''123'', book_123 3)],
       rentals = [(''r1'', rental_123 ''alice'' ''t1'' (PStr ''t2''))]\<rparr>) \<and>
   available_copies (book_123 3) = Some 3 \<and>
   total_copies ''total_copies'' (book_123 3) = Some 2 \<and>
   ''total_copies'' \<noteq> ''available_copies'' \<and>
   (2::int) < 3"
proof -
  have h1: "map_of (rentals corrupted) ''r1'' = Some (rental_123 ''alice'' ''t1'' PNone)"
    by (simp add: corrupted_def)
  have h2: "map_of (rental_123 ''alice'' ''t1'' PNone) ''user_id'' = Some (PStr ''alice'')"
    by (simp add: rental_123_def)
  have h3: "map_of (rental_123 ''alice'' ''t1'' PNone) ''returned_at'' = Some PNone"
    by (simp add: rental_123_def)
  have h4: "map_of (rental_123 ''alice'' ''t1'' PNone) ''book_id'' = Some (PStr ''123'')"
    by (simp add: rental_123_def)
  have h5: "to_key (PStr ''123'') = Some (KStr ''123'')" by simp
  have h6: "map_of (books corrupted) (KStr ''123'') = Some (book_123 2)"
    by (simp add: corrupted_def)
  have h7: "available_copies (book_123 2) = Some 2"
    by (simp add: available_copies_def book_123_def)
  have h8: "total_copies ''total_copies'' (book_123 2) = Some 2"
    by (simp add: total_copies_def book_123_def)
  have h9: "''total_copies'' \<noteq> ''available_copies''" by simp
  have r: "return_book corrupted ''r1'' ''alice'' ''t2'' =
     (Inr (Response ''Book returned successfully'' ''r1'' (book_123 3)),
      \<lparr>books = [(KStr ''123'', book_123 3)],
       rentals = [(''r1'', rental_123 ''alice'' ''t1'' (PStr ''t2''))]\<rparr>)"
    using return_book_effect [OF h1 h2 h3 h4 h5 h6 h7 h9, of "''t2''"]
    by (simp add: return_book_def example_defs getitem_def Let_def)
  have a: "available_copies (book_123 3) = Some 3"
    by (simp add: available_copies_def book_123_def)
  have t: "total_copies ''total_copies'' (book_123 3) = Some 2"
    by (simp add: total_copies_def book_123_def)
  from h1 h2 h3 h4 h5 h6 h7 h8 h9 r a t show ?thesis by simp
qed

section \<open>The scenario of the specification\<close>

text \<open>
  C9. The catalog holds book 123 with two copies, both available, and the ledger is empty.
  Alice rents (one copy left); Alice rents again and is refused with InvalidState; Bob rents
  (no copy left); Carol is refused with InvalidState; Alice returns her rental (one copy
  left); Alice returns it again and is refused with InvalidState. This holds for all
  timestamps and all generated identifiers, provided Bob's rental gets an identifier other
  than Alice's.
\<close>

theorem scenario:
  assumes "rid_b \<noteq> rid_a"
  shows "let r1 = rent_book start ''123'' ''alice'' rid_a t1;
             r2 = rent_book (snd r1) ''123'' ''alice'' rid2 t2;
             r3 = rent_book (snd r2) ''123'' ''bob'' rid_b t3;
             r4 = rent_book (snd r3) ''123'' ''carol'' rid4 t4;
             r5 = return_book (snd r4) rid_a ''alice'' t5;
             r6 = return_book (snd r5) rid_a ''alice'' t6
         in fst r1 = Inr (Response ''Book rented successfully'' rid_a (book_123 1)) \<and>
            copies_of (snd r1) ''123'' = Some 1 \<and>
            fst r2 = Inl (InvalidState ''Book already rented by this user'') \<and>
            fst r3 = Inr (Response ''Book rented successfully'' rid_b (book_123 0)) \<and>
            copies_of (snd r3) ''123'' = Some 0 \<and>
            fst r4 = Inl (InvalidState
                       ''There are no copies of this book available for rent'') \<and>
            fst r5 = Inr (Response ''Book returned successfully'' rid_a (book_123 1)) \<and>
            copies_of (snd r5) ''123'' = Some 1 \<and>
            fst r6 = Inl (InvalidState ''Book already returned'')"
proof -
  define s1 where "s1 = \<lparr>books = [(KStr ''123'', book_123 1)],
                          rentals = [(rid_a, rental_123 ''alice'' t1 PNone)]\<rparr>"
  define s3 where "s3 = \<lparr>books = [(KStr ''123'', book_123 0)],
                          rentals = [(rid_a, rental_123 ''alice'' t1 PNone),
                                     (rid_b, rental_123 ''bob'' t3 PNone)]\<rparr>"
  define s5 where "s5 = \<lparr>books = [(KStr ''123'', book_123 1)],
                          rentals = [(rid_a, rental_123 ''alice'' t1 (PStr t5)),
                                     (rid_b, rental_123 ''bob'' t3 PNone)]\<rparr>"
  have r1: "rent_book start ''123'' ''alice'' rid_a t1 =
              (Inr (Response ''Book rented successfully'' rid_a (book_123 1)), s1)"
    by (simp add: rent_book_def example_defs s1_def getitem_def new_rental_def Let_def)
  have r2: "rent_book s1 ''123'' ''alice'' rid2 t2 =
              (Inl (InvalidState ''Book already rented by this user''), s1)"
    by (simp add: rent_book_def s1_def example_defs getitem_def InvalidState_def)
  have r3: "rent_book s1 ''123'' ''bob'' rid_b t3 =
              (Inr (Response ''Book rented successfully'' rid_b (book_123 0)), s3)"
    using assms assms [symmetric]
    by (simp add: rent_book_def s1_def s3_def example_defs getitem_def new_rental_def Let_def)
  have r4: "rent_book s3 ''123'' ''carol'' rid4 t4 =
              (Inl (InvalidState ''There are no copies of this book available for rent''), s3)"
    by (simp add: rent_book_def s3_def example_defs getitem_def InvalidState_def)
  have r5: "return_book s3 rid_a ''alice'' t5 =
              (Inr (Response ''Book returned successfully'' rid_a (book_123 1)), s5)"
    by (simp add: return_book_def s3_def s5_def example_defs getitem_def Let_def)
  have r6: "return_book s5 rid_a ''alice'' t6 =
              (Inl (InvalidState ''Book already returned''), s5)"
    by (simp add: return_book_def s5_def example_defs getitem_def InvalidState_def)
  have c1: "copies_of s1 ''123'' = Some 1"
    by (simp add: copies_of_def s1_def available_copies_def book_123_def)
  have c3: "copies_of s3 ''123'' = Some 0"
    by (simp add: copies_of_def s3_def available_copies_def book_123_def)
  have c5: "copies_of s5 ''123'' = Some 1"
    by (simp add: copies_of_def s5_def available_copies_def book_123_def)
  show ?thesis
    by (simp add: Let_def r1 r2 r3 r4 r5 r6 c1 c3 c5)
qed

theorem scenario_witness:
  "''r2'' \<noteq> ''r1'' \<and>
   (let r1 = rent_book start ''123'' ''alice'' ''r1'' ''t1'';
        r2 = rent_book (snd r1) ''123'' ''alice'' ''r9'' ''t2'';
        r3 = rent_book (snd r2) ''123'' ''bob'' ''r2'' ''t3'';
        r4 = rent_book (snd r3) ''123'' ''carol'' ''r9'' ''t4'';
        r5 = return_book (snd r4) ''r1'' ''alice'' ''t5'';
        r6 = return_book (snd r5) ''r1'' ''alice'' ''t6''
    in copies_of (snd r1) ''123'' = Some 1 \<and>
       fst r2 = Inl (InvalidState ''Book already rented by this user'') \<and>
       copies_of (snd r3) ''123'' = Some 0 \<and>
       fst r4 = Inl (InvalidState ''There are no copies of this book available for rent'') \<and>
       copies_of (snd r5) ''123'' = Some 1 \<and>
       fst r6 = Inl (InvalidState ''Book already returned''))"
proof -
  have h: "''r2'' \<noteq> ''r1''" by simp
  show ?thesis
    using h scenario [OF h, of "''t1''" "''r9''" "''t2''" "''t3''" "''r9''" "''t4''"
        "''t5''" "''t6''"]
    unfolding Let_def by blast
qed

section \<open>List User's Active Rentals: the result\<close>

lemma user_rentals_spec:
  "list_all is_rental rs \<Longrightarrow> user_rentals u rs = Inr (filter (outstanding_of u) rs)"
  by (induction rs)
     (auto simp: is_rental_def getitem_def outstanding_of_def split: option.splits)

lemma book_info_spec:
  assumes "is_rental r"
  shows "\<exists>e. book_info bk r = Inr e \<and>
           (\<forall>f. map_of e f =
              (if f = ''rented_at'' then map_of r ''rented_at''
               else if f = ''rental_id'' then
                 Some (case map_of r ''rental_id'' of None \<Rightarrow> PNone | Some v \<Rightarrow> v)
               else map_of bk f))"
  using assms
  by (auto simp: is_rental_def book_info_def getitem_def update_conv' Let_def
      split: option.splits)

lemma is_rental_key: "is_rental r \<Longrightarrow> \<exists>b. map_of r ''book_id'' = Some (PStr b)"
  by (auto simp: is_rental_def split: option.splits elim: is_str.elims)

lemma user_books_spec:
  "list_all is_rental rs \<Longrightarrow>
   \<exists>es. user_books bs rs = Inr es \<and>
     list_all2 (\<lambda>r e. \<exists>bk. book_of bs r = Some bk \<and>
           (\<forall>f. map_of e f =
              (if f = ''rented_at'' then map_of r ''rented_at''
               else if f = ''rental_id'' then
                 Some (case map_of r ''rental_id'' of None \<Rightarrow> PNone | Some v \<Rightarrow> v)
               else map_of bk f)))
       (filter (\<lambda>r. book_of bs r \<noteq> None) rs) es"
proof (induction rs)
  case Nil
  then show ?case by simp
next
  case (Cons r rs)
  then have r: "is_rental r" and rs: "list_all is_rental rs" by simp_all
  from is_rental_key [OF r] obtain b where b: "map_of r ''book_id'' = Some (PStr b)" ..
  from Cons.IH [OF rs] obtain es where
    es: "user_books bs rs = Inr es"
      "list_all2 (\<lambda>r e. \<exists>bk. book_of bs r = Some bk \<and>
           (\<forall>f. map_of e f =
              (if f = ''rented_at'' then map_of r ''rented_at''
               else if f = ''rental_id'' then
                 Some (case map_of r ''rental_id'' of None \<Rightarrow> PNone | Some v \<Rightarrow> v)
               else map_of bk f)))
       (filter (\<lambda>r. book_of bs r \<noteq> None) rs) es"
    by blast
  show ?case
  proof (cases "map_of bs (KStr b)")
    case None
    with b es show ?thesis
      by (simp add: getitem_def book_of_def)
  next
    case (Some bk)
    from book_info_spec [OF r, of bk] obtain e where
      e: "book_info bk r = Inr e"
        "\<forall>f. map_of e f =
              (if f = ''rented_at'' then map_of r ''rented_at''
               else if f = ''rental_id'' then
                 Some (case map_of r ''rental_id'' of None \<Rightarrow> PNone | Some v \<Rightarrow> v)
               else map_of bk f)"
      by blast
    have bo: "book_of bs r = Some bk"
      using b Some by (simp add: book_of_def)
    have "user_books bs (r # rs) = Inr (e # es)"
      using b Some e(1) es(1) by (simp add: getitem_def)
    moreover have "filter (\<lambda>r. book_of bs r \<noteq> None) (r # rs) =
                   r # filter (\<lambda>r. book_of bs r \<noteq> None) rs"
      using bo by simp
    ultimately show ?thesis
      using es(2) e(2) bo by auto
  qed
qed

text \<open>
  C7. On a ledger of rental records, List User's Active Rentals does not fail. Its result
  has, in ledger order, exactly one entry for each rental that belongs to the user, has a
  null return time and points to a book of the catalog; rentals whose book is not in the
  catalog are skipped. The entry is the book record with \<open>rented_at\<close> set to the rental's
  \<open>rented_at\<close> and \<open>rental_id\<close> set to the rental's \<open>rental_id\<close> field when the rental has
  one, and to null otherwise. Without outstanding rentals of the user the result is the
  empty list. The handler writes to neither dictionary, so its model has no state to return.
\<close>

theorem list_user_books_spec:
  assumes "list_all (\<lambda>kr. is_rental (snd kr)) (rentals s)"
  shows "\<exists>es. list_user_books s user_id = Inr es \<and>
     list_all2 (\<lambda>r e. \<exists>bk. book_of (books s) r = Some bk \<and>
           (\<forall>f. map_of e f =
              (if f = ''rented_at'' then map_of r ''rented_at''
               else if f = ''rental_id'' then
                 Some (case map_of r ''rental_id'' of None \<Rightarrow> PNone | Some v \<Rightarrow> v)
               else map_of bk f)))
       (filter (\<lambda>r. outstanding_of user_id r \<and> book_of (books s) r \<noteq> None)
          (map snd (rentals s))) es \<and>
     ((\<forall>r\<in>set (map snd (rentals s)). \<not> outstanding_of user_id r) \<longrightarrow> es = [])"
proof -
  let ?rs = "map snd (rentals s)"
  have all: "list_all is_rental ?rs"
    using assms by (simp add: list_all_iff)
  then have urs: "user_rentals user_id ?rs = Inr (filter (outstanding_of user_id) ?rs)"
    by (rule user_rentals_spec)
  from all have "list_all is_rental (filter (outstanding_of user_id) ?rs)"
    by (auto simp: list_all_iff)
  from user_books_spec [OF this, of "books s"] obtain es where
    es: "user_books (books s) (filter (outstanding_of user_id) ?rs) = Inr es"
      "list_all2 (\<lambda>r e. \<exists>bk. book_of (books s) r = Some bk \<and>
           (\<forall>f. map_of e f =
              (if f = ''rented_at'' then map_of r ''rented_at''
               else if f = ''rental_id'' then
                 Some (case map_of r ''rental_id'' of None \<Rightarrow> PNone | Some v \<Rightarrow> v)
               else map_of bk f)))
       (filter (\<lambda>r. book_of (books s) r \<noteq> None) (filter (outstanding_of user_id) ?rs)) es"
    by blast
  have res: "list_user_books s user_id = Inr es"
    using urs es(1) by (simp add: list_user_books_def)
  have flt: "filter (\<lambda>r. book_of (books s) r \<noteq> None) (filter (outstanding_of user_id) ?rs) =
             filter (\<lambda>r. outstanding_of user_id r \<and> book_of (books s) r \<noteq> None) ?rs"
    by simp
  have empty: "(\<forall>r\<in>set ?rs. \<not> outstanding_of user_id r) \<longrightarrow> es = []"
  proof
    assume "\<forall>r\<in>set ?rs. \<not> outstanding_of user_id r"
    then have "filter (outstanding_of user_id) ?rs = []"
      by (simp add: filter_empty_conv)
    with es(1) show "es = []" by simp
  qed
  from res es(2) flt empty show ?thesis by auto
qed

theorem list_user_books_spec_witness:
  "list_all (\<lambda>kr. is_rental (snd kr)) (rentals rented) \<and>
   list_user_books rented ''alice'' =
     Inr [[(''isbn'', PStr ''123''), (''title'', PStr ''Dune''), (''author'', PStr ''Herbert''),
           (''total_copies'', PInt 2), (''available_copies'', PInt 1),
           (''rental_id'', PNone), (''rented_at'', PStr ''t1'')]] \<and>
   \<not> (\<exists>r\<in>set (map snd (rentals rented)). outstanding_of ''bob'' r) \<and>
   list_user_books rented ''bob'' = Inr []"
proof -
  have h: "list_all (\<lambda>kr. is_rental (snd kr)) (rentals rented)"
    by (simp add: example_defs is_rental_def)
  have a: "list_user_books rented ''alice'' =
     Inr [[(''isbn'', PStr ''123''), (''title'', PStr ''Dune''), (''author'', PStr ''Herbert''),
           (''total_copies'', PInt 2), (''available_copies'', PInt 1),
           (''rental_id'', PNone), (''rented_at'', PStr ''t1'')]]"
    by (simp add: list_user_books_def example_defs getitem_def book_info_def)
  have n: "\<not> (\<exists>r\<in>set (map snd (rentals rented)). outstanding_of ''bob'' r)"
    by (simp add: example_defs outstanding_of_def)
  have b: "list_user_books rented ''bob'' = Inr []"
    using n list_user_books_spec [OF h, of "''bob''"] by auto
  from h a n b show ?thesis by blast
qed

section \<open>The copy-count invariant\<close>

lemma set_update_subset: "set (AList.update k v al) \<subseteq> insert (k, v) (set al)"
  by (induction al) auto

lemma count_update_le:
  "length (filter P (map snd (AList.update k v al))) \<le>
   length (filter P (map snd al)) + (if P v then 1 else 0)"
  by (induction al) auto

lemma count_update_existing:
  "map_of al k = Some v \<Longrightarrow>
   length (filter P (map snd (AList.update k v' al))) + (if P v then 1 else 0) =
   length (filter P (map snd al)) + (if P v' then 1 else 0)"
  by (induction al) (auto split: if_splits)

lemma run_induct:
  assumes "P s0" and "\<And>s req. P s \<Longrightarrow> P (handle s req)"
  shows "P (run s0 reqs)"
  unfolding run_def using assms(1)
  by (induction reqs arbitrary: s0) (auto intro: assms(2))

lemma copies_ok_D:
  "copies_ok tc bk \<Longrightarrow> \<exists>a t. available_copies bk = Some a \<and> total_copies tc bk = Some t \<and>
                          0 \<le> a \<and> a \<le> t"
  by (auto simp: copies_ok_def split: option.splits)

lemma copies_ok_I:
  "available_copies bk = Some a \<Longrightarrow> total_copies tc bk = Some t \<Longrightarrow> 0 \<le> a \<Longrightarrow> a \<le> t \<Longrightarrow>
   copies_ok tc bk"
  by (simp add: copies_ok_def)

lemma available_update [simp]:
  "available_copies (AList.update ''available_copies'' (PInt m) bk) = Some m"
  by (simp add: available_copies_def update_conv')

lemma total_update:
  "tc \<noteq> ''available_copies'' \<Longrightarrow>
   total_copies tc (AList.update ''available_copies'' v bk) = total_copies tc bk"
  by (simp add: total_copies_def update_conv')

lemma available_copies_eq:
  "map_of bk ''available_copies'' = Some av \<Longrightarrow> as_int av = Some n \<Longrightarrow>
   available_copies bk = Some n"
  by (simp add: available_copies_def)

lemma refers_to_new_rental: "refers_to k (new_rental u b now) \<longleftrightarrow> k = KStr b"
  by (auto simp: refers_to_def new_rental_def)

lemma refers_to_returned [simp]:
  "\<not> refers_to k (AList.update ''returned_at'' (PStr now) r)"
  by (simp add: refers_to_def update_conv')

lemma accounted_rent:
  assumes inv: "accounted tc s" and tc: "tc \<noteq> ''available_copies''"
  shows "accounted tc (snd (rent_book s b u rid now))"
proof (cases "fst (rent_book s b u rid now)")
  case (Inl e)
  then have "snd (rent_book s b u rid now) = s"
    by (auto simp: rent_book_def getitem_def Let_def
        split: option.splits sum.splits if_splits bool.splits)
  with inv show ?thesis by simp
next
  case (Inr resp)
  then have "rent_book s b u rid now = (Inr resp, snd (rent_book s b u rid now))"
    by (metis prod.collapse)
  from rent_book_Inr [OF this] obtain bk av n where
    bk: "map_of (books s) (KStr b) = Some bk" and
    av: "map_of bk ''available_copies'' = Some av" "as_int av = Some n" and
    pos: "0 < n" and
    s': "snd (rent_book s b u rid now) =
           \<lparr>books = AList.update (KStr b)
                      (AList.update ''available_copies'' (PInt (n - 1)) bk) (books s),
            rentals = AList.update rid (new_rental u b now) (rentals s)\<rparr>"
    by blast
  let ?bk' = "AList.update ''available_copies'' (PInt (n - 1)) bk"
  let ?s' = "snd (rent_book s b u rid now)"
  have an: "available_copies bk = Some n"
    using av by (rule available_copies_eq)
  from bk have mem: "(KStr b, bk) \<in> set (books s)" by (rule map_of_SomeD)
  with inv have "copies_ok tc bk" by (auto simp: accounted_def)
  from copies_ok_D [OF this] an obtain t where
    t: "total_copies tc bk = Some t" "n \<le> t" by auto
  from inv bk an t(1) have loan: "n + int (on_loan s (KStr b)) \<le> t"
    by (auto simp: accounted_def)
  have ok': "copies_ok tc ?bk'"
    using t pos tc by (intro copies_ok_I [of _ "n - 1" tc t]) (auto simp: total_update)
  have loan_le: "on_loan ?s' k \<le> on_loan s k + (if k = KStr b then 1 else 0)" for k
    using count_update_le [of "refers_to k" rid "new_rental u b now" "rentals s"]
    by (simp add: on_loan_def s' refers_to_new_rental)
  have 1: "\<forall>kb\<in>set (books ?s'). copies_ok tc (snd kb)"
  proof
    fix kb assume "kb \<in> set (books ?s')"
    then have "kb = (KStr b, ?bk') \<or> kb \<in> set (books s)"
      using set_update_subset [of "KStr b" ?bk' "books s"] by (auto simp: s')
    with ok' inv show "copies_ok tc (snd kb)" by (auto simp: accounted_def)
  qed
  have 2: "a + int (on_loan ?s' k) \<le> t'"
    if m: "map_of (books ?s') k = Some bk2" and a: "available_copies bk2 = Some a"
      and t': "total_copies tc bk2 = Some t'" for k bk2 a t'
  proof (cases "k = KStr b")
    case True
    with m have "bk2 = ?bk'" by (simp add: s' update_conv')
    with a t' t(1) tc have "a = n - 1" "t' = t" by (simp_all add: total_update)
    with loan loan_le [of k] True show ?thesis by simp
  next
    case False
    with m have "map_of (books s) k = Some bk2" by (simp add: s' update_conv')
    with inv a t' have "a + int (on_loan s k) \<le> t'" by (auto simp: accounted_def)
    with loan_le [of k] False show ?thesis by simp
  qed
  from 1 2 show ?thesis unfolding accounted_def by blast
qed

lemma return_book_Inl:
  assumes "fst (return_book s rid u now) = Inl e"
  shows "snd (return_book s rid u now) = s \<or>
         (\<exists>k bk. map_of (books s) k = Some bk \<and> available_copies bk = None)"
proof (cases "snd (return_book s rid u now) = s")
  case True
  then show ?thesis by simp
next
  case False
  then obtain rental bid k bk where
    "map_of (rentals s) rid = Some rental" "map_of rental ''book_id'' = Some bid"
    "to_key bid = Some k" "map_of (books s) k = Some bk" "bk \<noteq> []"
    "map_of rental ''user_id'' = Some (PStr u)" "map_of rental ''returned_at'' = Some PNone"
    by (auto simp: return_book_def getitem_def Let_def
        split: option.splits sum.splits if_splits)
  with assms have "available_copies bk = None"
    by (auto simp: return_book_def getitem_def Let_def available_copies_def
        split: option.splits)
  with \<open>map_of (books s) k = Some bk\<close> show ?thesis by blast
qed

lemma refers_to_unique: "refers_to k r \<Longrightarrow> refers_to k' r \<Longrightarrow> k' = k"
  by (auto simp: refers_to_def split: option.splits)

lemma accounted_return:
  assumes inv: "accounted tc s" and tc: "tc \<noteq> ''available_copies''"
  shows "accounted tc (snd (return_book s rid u now))"
proof (cases "fst (return_book s rid u now)")
  case (Inl e)
  have "snd (return_book s rid u now) = s"
  proof (rule ccontr)
    assume "snd (return_book s rid u now) \<noteq> s"
    with return_book_Inl [OF Inl] obtain k bk where
      bk: "map_of (books s) k = Some bk" "available_copies bk = None" by blast
    from bk(1) have "(k, bk) \<in> set (books s)" by (rule map_of_SomeD)
    with inv have "copies_ok tc bk" by (auto simp: accounted_def)
    from copies_ok_D [OF this] bk(2) show False by auto
  qed
  with inv show ?thesis by simp
next
  case (Inr resp)
  then have "return_book s rid u now = (Inr resp, snd (return_book s rid u now))"
    by (metis prod.collapse)
  from return_book_Inr [OF this] obtain rental bid k bk av n where
    rental: "map_of (rentals s) rid = Some rental" and
    out: "map_of rental ''returned_at'' = Some PNone" and
    bid: "map_of rental ''book_id'' = Some bid" "to_key bid = Some k" and
    bk: "map_of (books s) k = Some bk" and
    av: "map_of bk ''available_copies'' = Some av" "as_int av = Some n" and
    s': "snd (return_book s rid u now) =
           \<lparr>books = AList.update k
                      (AList.update ''available_copies'' (PInt (n + 1)) bk) (books s),
            rentals = AList.update rid
                      (AList.update ''returned_at'' (PStr now) rental) (rentals s)\<rparr>"
    by blast
  let ?bk' = "AList.update ''available_copies'' (PInt (n + 1)) bk"
  let ?r' = "AList.update ''returned_at'' (PStr now) rental"
  let ?s' = "snd (return_book s rid u now)"
  have an: "available_copies bk = Some n"
    using av by (rule available_copies_eq)
  from bk have mem: "(k, bk) \<in> set (books s)" by (rule map_of_SomeD)
  with inv have "copies_ok tc bk" by (auto simp: accounted_def)
  from copies_ok_D [OF this] an obtain t where
    t: "total_copies tc bk = Some t" "0 \<le> n" by auto
  from inv bk an t(1) have loan: "n + int (on_loan s k) \<le> t"
    by (auto simp: accounted_def)
  have ref: "refers_to k rental"
    using out bid by (simp add: refers_to_def)
  have cnt: "on_loan ?s' k' + (if k' = k then 1 else 0) = on_loan s k'" for k'
  proof -
    have iff: "refers_to k' rental \<longleftrightarrow> k' = k"
      using ref refers_to_unique [OF ref, of k'] by blast
    have "rentals ?s' = AList.update rid ?r' (rentals s)"
      by (simp add: s')
    with count_update_existing [OF rental, of "refers_to k'" ?r'] iff
    show ?thesis
      by (simp add: on_loan_def)
  qed
  from cnt [of k] have "int (on_loan s k) = int (on_loan ?s' k) + 1" by simp
  with loan have loan': "n + 1 + int (on_loan ?s' k) \<le> t" by simp
  have ok': "copies_ok tc ?bk'"
    using t loan' tc by (intro copies_ok_I [of _ "n + 1" tc t]) (auto simp: total_update)
  have 1: "\<forall>kb\<in>set (books ?s'). copies_ok tc (snd kb)"
  proof
    fix kb assume "kb \<in> set (books ?s')"
    then have "kb = (k, ?bk') \<or> kb \<in> set (books s)"
      using set_update_subset [of k ?bk' "books s"] by (auto simp: s')
    with ok' inv show "copies_ok tc (snd kb)" by (auto simp: accounted_def)
  qed
  have 2: "a + int (on_loan ?s' k') \<le> t'"
    if m: "map_of (books ?s') k' = Some bk2" and a: "available_copies bk2 = Some a"
      and t': "total_copies tc bk2 = Some t'" for k' bk2 a t'
  proof (cases "k' = k")
    case True
    with m have "bk2 = ?bk'" by (simp add: s' update_conv')
    with a t' t(1) tc have "a = n + 1" "t' = t" by (simp_all add: total_update)
    with loan' True show ?thesis by simp
  next
    case False
    with m have "map_of (books s) k' = Some bk2" by (simp add: s' update_conv')
    with inv a t' have "a + int (on_loan s k') \<le> t'" by (auto simp: accounted_def)
    with cnt [of k'] False show ?thesis by simp
  qed
  from 1 2 show ?thesis unfolding accounted_def by blast
qed

lemma accounted_handle:
  "accounted tc s \<Longrightarrow> tc \<noteq> ''available_copies'' \<Longrightarrow> accounted tc (handle s req)"
  by (cases req) (simp_all add: accounted_rent accounted_return)

lemma accounted_init:
  assumes "rentals s0 = []" and "list_all (\<lambda>kb. copies_ok tc (snd kb)) (books s0)"
  shows "accounted tc s0"
proof -
  have 1: "\<forall>kb\<in>set (books s0). copies_ok tc (snd kb)"
    using assms(2) by (simp add: list_all_iff)
  have 2: "a + int (on_loan s0 k) \<le> t"
    if "map_of (books s0) k = Some bk" "available_copies bk = Some a" "total_copies tc bk = Some t"
    for k bk a t
  proof -
    from that(1) have "(k, bk) \<in> set (books s0)" by (rule map_of_SomeD)
    with 1 have "copies_ok tc bk" by auto
    from copies_ok_D [OF this] that(2,3) have "a \<le> t" by auto
    with assms(1) show ?thesis by (simp add: on_loan_def)
  qed
  from 1 2 show ?thesis unfolding accounted_def by blast
qed

text \<open>
  C6. Start from an empty ledger and a catalog in which every book satisfies
  \<open>0 \<le> available_copies \<le> total_copies\<close>, the total being read from a field \<open>tc\<close> other
  than \<open>available_copies\<close>. After any sequence of requests to the five routes, whatever
  identifiers and times the rents and returns get, every book of the catalog still
  satisfies it.
\<close>

theorem copies_invariant:
  assumes "rentals s0 = []" and "list_all (\<lambda>kb. copies_ok tc (snd kb)) (books s0)"
    and "tc \<noteq> ''available_copies''"
  shows "list_all (\<lambda>kb. copies_ok tc (snd kb)) (books (run s0 reqs))"
proof -
  have "accounted tc (run s0 reqs)"
    by (rule run_induct [where P = "accounted tc"])
       (simp_all add: accounted_init [OF assms(1,2)] accounted_handle assms(3))
  then show ?thesis
    by (simp add: accounted_def list_all_iff)
qed

theorem copies_invariant_witness:
  "rentals start = [] \<and>
   list_all (\<lambda>kb. copies_ok ''total_copies'' (snd kb)) (books start) \<and>
   ''total_copies'' \<noteq> ''available_copies'' \<and>
   list_all (\<lambda>kb. copies_ok ''total_copies'' (snd kb))
     (books (run start [RentBook ''123'' ''alice'' ''r1'' ''t1'', ListUserBooks ''alice'',
                        ReturnBook ''r1'' ''alice'' ''t2'', ListBooks]))"
proof -
  have h1: "rentals start = []"
    by (simp add: start_def)
  have h2: "list_all (\<lambda>kb. copies_ok ''total_copies'' (snd kb)) (books start)"
    by (simp add: example_defs copies_ok_def available_copies_def total_copies_def)
  have h3: "''total_copies'' \<noteq> ''available_copies''"
    by simp
  from h1 h2 h3 copies_invariant [OF h1 h2 h3] show ?thesis by blast
qed

section \<open>Rentals carry no identifier of their own\<close>

lemma rent_book_rentals:
  "rentals (snd (rent_book s b u rid now)) = rentals s \<or>
   rentals (snd (rent_book s b u rid now)) = AList.update rid (new_rental u b now) (rentals s)"
  by (auto simp: rent_book_def Let_def split: option.splits sum.splits bool.splits)

lemma return_book_rentals:
  "rentals (snd (return_book s rid u now)) = rentals s \<or>
   (\<exists>rental. map_of (rentals s) rid = Some rental \<and>
      rentals (snd (return_book s rid u now)) =
        AList.update rid (AList.update ''returned_at'' (PStr now) rental) (rentals s))"
  by (auto simp: return_book_def Let_def split: option.splits sum.splits)

lemma ledger_preserved:
  assumes all: "\<forall>kr\<in>set (rentals s). Q (snd kr)"
    and new: "\<And>u b now. Q (new_rental u b now)"
    and ret: "\<And>r now. Q r \<Longrightarrow> Q (AList.update ''returned_at'' (PStr now) r)"
  shows "\<forall>kr\<in>set (rentals (handle s req)). Q (snd kr)"
proof (cases req)
  case (RentBook b u rid now)
  from rent_book_rentals [of s b u rid now] show ?thesis
  proof
    assume "rentals (snd (rent_book s b u rid now)) = rentals s"
    with all RentBook show ?thesis by simp
  next
    assume eq: "rentals (snd (rent_book s b u rid now)) =
                AList.update rid (new_rental u b now) (rentals s)"
    show ?thesis
    proof
      fix kr assume "kr \<in> set (rentals (handle s req))"
      with eq RentBook have "kr \<in> set (AList.update rid (new_rental u b now) (rentals s))"
        by simp
      with set_update_subset [of rid "new_rental u b now" "rentals s"]
      have "kr = (rid, new_rental u b now) \<or> kr \<in> set (rentals s)" by auto
      with all new show "Q (snd kr)" by auto
    qed
  qed
next
  case (ReturnBook rid u now)
  from return_book_rentals [of s rid u now] show ?thesis
  proof
    assume "rentals (snd (return_book s rid u now)) = rentals s"
    with all ReturnBook show ?thesis by simp
  next
    assume "\<exists>rental. map_of (rentals s) rid = Some rental \<and>
      rentals (snd (return_book s rid u now)) =
        AList.update rid (AList.update ''returned_at'' (PStr now) rental) (rentals s)"
    then obtain rental where
      r: "map_of (rentals s) rid = Some rental" and
      eq: "rentals (snd (return_book s rid u now)) =
        AList.update rid (AList.update ''returned_at'' (PStr now) rental) (rentals s)"
      by blast
    from r have "(rid, rental) \<in> set (rentals s)" by (rule map_of_SomeD)
    with all have "Q rental" by auto
    then have q': "Q (AList.update ''returned_at'' (PStr now) rental)" by (rule ret)
    show ?thesis
    proof
      fix kr assume "kr \<in> set (rentals (handle s req))"
      with eq ReturnBook
      have "kr \<in> set (AList.update rid (AList.update ''returned_at'' (PStr now) rental)
                        (rentals s))"
        by simp
      with set_update_subset [of rid "AList.update ''returned_at'' (PStr now) rental"
          "rentals s"]
      have "kr = (rid, AList.update ''returned_at'' (PStr now) rental) \<or>
            kr \<in> set (rentals s)" by auto
      with all q' show "Q (snd kr)" by auto
    qed
  qed
qed (use all in simp_all)

lemma ledger_reachable:
  assumes empty: "rentals s0 = []"
    and new: "\<And>u b now. Q (new_rental u b now)"
    and ret: "\<And>r now. Q r \<Longrightarrow> Q (AList.update ''returned_at'' (PStr now) r)"
  shows "\<forall>kr\<in>set (rentals (run s0 reqs)). Q (snd kr)"
proof (rule run_induct [where P = "\<lambda>s. \<forall>kr\<in>set (rentals s). Q (snd kr)"])
  show "\<forall>kr\<in>set (rentals s0). Q (snd kr)" using empty by simp
next
  fix s :: state and req
  assume "\<forall>kr\<in>set (rentals s). Q (snd kr)"
  then show "\<forall>kr\<in>set (rentals (handle s req)). Q (snd kr)"
    using new ret by (rule ledger_preserved)
qed

lemma is_rental_new: "is_rental (new_rental u b now)"
  by (simp add: is_rental_def new_rental_def)

lemma is_rental_returned: "is_rental r \<Longrightarrow> is_rental (AList.update ''returned_at'' (PStr now) r)"
  by (auto simp: is_rental_def update_conv' split: option.splits)

text \<open>Every ledger built by the service from an empty one holds rental records.\<close>

lemma rentals_reachable:
  assumes "rentals s0 = []"
  shows "list_all (\<lambda>kr. is_rental (snd kr)) (rentals (run s0 reqs))"
  using ledger_reachable [OF assms, of is_rental reqs] is_rental_new is_rental_returned
  by (simp add: list_all_iff)

lemma user_rentals_subset:
  "user_rentals u rs = Inr urs \<Longrightarrow> set urs \<subseteq> set rs"
proof (induction rs arbitrary: urs)
  case Nil
  then show ?case by simp
next
  case (Cons r rs)
  then show ?case
    by (auto split: sum.splits if_splits)
qed

lemma book_info_rental_id:
  "book_info bk r = Inr e \<Longrightarrow> map_of r ''rental_id'' = None \<Longrightarrow>
   map_of e ''rental_id'' = Some PNone"
  by (auto simp: book_info_def Let_def update_conv' split: sum.splits)

lemma user_books_rental_id:
  "user_books bs rs = Inr es \<Longrightarrow> \<forall>r\<in>set rs. map_of r ''rental_id'' = None \<Longrightarrow>
   \<forall>e\<in>set es. map_of e ''rental_id'' = Some PNone"
proof (induction rs arbitrary: es)
  case Nil
  then show ?case by simp
next
  case (Cons r rs)
  then show ?case
    by (auto split: sum.splits option.splits dest: book_info_rental_id)
qed

text \<open>
  C10. A successful rent answers with the generated identifier and stores, under that
  identifier, a rental with the four fields \<open>user_id\<close>, \<open>book_id\<close>, \<open>rented_at\<close> and
  \<open>returned_at\<close>, so without a \<open>rental_id\<close> field. In every state that the service
  reaches from an empty ledger no rental has a \<open>rental_id\<close> field, and every entry that
  List User's Active Rentals returns has \<open>rental_id\<close> null.
\<close>

theorem rental_id_absent:
  assumes "rentals s0 = []"
  shows "(rent_book s book_id user_id rid now = (Inr resp, s') \<longrightarrow>
            resp_rental_id resp = rid \<and>
            map_of (rentals s') rid =
              Some [(''user_id'', PStr user_id), (''book_id'', PStr book_id),
                    (''rented_at'', PStr now), (''returned_at'', PNone)]) \<and>
         (\<forall>kr\<in>set (rentals (run s0 reqs)). map_of (snd kr) ''rental_id'' = None) \<and>
         (\<forall>es. list_user_books (run s0 reqs) u = Inr es \<longrightarrow>
            (\<forall>e\<in>set es. map_of e ''rental_id'' = Some PNone))"
proof (intro conjI impI allI)
  assume "rent_book s book_id user_id rid now = (Inr resp, s')"
  from rent_book_Inr [OF this]
  show "resp_rental_id resp = rid"
    and "map_of (rentals s') rid =
              Some [(''user_id'', PStr user_id), (''book_id'', PStr book_id),
                    (''rented_at'', PStr now), (''returned_at'', PNone)]"
    by (auto simp: update_conv' new_rental_def)
next
  let ?Q = "\<lambda>r. map_of r ''rental_id'' = None"
  have none: "\<forall>kr\<in>set (rentals (run s0 reqs)). ?Q (snd kr)"
    by (rule ledger_reachable [OF assms]) (simp_all add: new_rental_def update_conv')
  then show "\<forall>kr\<in>set (rentals (run s0 reqs)). map_of (snd kr) ''rental_id'' = None" .
  fix es
  assume "list_user_books (run s0 reqs) u = Inr es"
  then obtain urs where
    urs: "user_rentals u (map snd (rentals (run s0 reqs))) = Inr urs" and
    es: "user_books (books (run s0 reqs)) urs = Inr es"
    by (auto simp: list_user_books_def split: sum.splits)
  from user_rentals_subset [OF urs] none have "\<forall>r\<in>set urs. ?Q r" by auto
  with es show "\<forall>e\<in>set es. map_of e ''rental_id'' = Some PNone"
    by (rule user_books_rental_id)
qed

theorem rental_id_absent_witness:
  "rentals start = [] \<and>
   rent_book start ''123'' ''alice'' ''r1'' ''t1'' =
     (Inr (Response ''Book rented successfully'' ''r1'' (book_123 1)), rented) \<and>
   map_of (rentals rented) ''r1'' =
     Some [(''user_id'', PStr ''alice''), (''book_id'', PStr ''123''),
           (''rented_at'', PStr ''t1''), (''returned_at'', PNone)] \<and>
   run start [RentBook ''123'' ''alice'' ''r1'' ''t1''] = rented \<and>
   list_user_books rented ''alice'' =
     Inr [book_123 1 @ [(''rental_id'', PNone), (''rented_at'', PStr ''t1'')]] \<and>
   map_of (book_123 1 @ [(''rental_id'', PNone), (''rented_at'', PStr ''t1'')])
     ''rental_id'' = Some PNone"
proof -
  have h: "rentals start = []"
    by (simp add: start_def)
  have r: "rent_book start ''123'' ''alice'' ''r1'' ''t1'' =
     (Inr (Response ''Book rented successfully'' ''r1'' (book_123 1)), rented)"
    by (simp add: rent_book_def example_defs getitem_def new_rental_def Let_def)
  have run: "run start [RentBook ''123'' ''alice'' ''r1'' ''t1''] = rented"
    by (simp add: run_def r)
  have l: "list_user_books rented ''alice'' =
     Inr [book_123 1 @ [(''rental_id'', PNone), (''rented_at'', PStr ''t1'')]]"
    by (simp add: list_user_books_def example_defs getitem_def book_info_def)
  from rental_id_absent [OF h, of start "''123''" "''alice''" "''r1''" "''t1''"
      "Response ''Book rented successfully'' ''r1'' (book_123 1)" rented
      "[RentBook ''123'' ''alice'' ''r1'' ''t1'']" "''alice''"] r run l
  have "map_of (rentals rented) ''r1'' =
     Some [(''user_id'', PStr ''alice''), (''book_id'', PStr ''123''),
           (''rented_at'', PStr ''t1''), (''returned_at'', PNone)]"
    and "map_of (book_123 1 @ [(''rental_id'', PNone), (''rented_at'', PStr ''t1'')])
     ''rental_id'' = Some PNone"
    by simp_all
  with h r run l show ?thesis by blast
qed

section \<open>Catalog load: what the catalog holds\<close>

lemma load_try_Inr:
  assumes "load_try file = Inr bs"
  shows "\<exists>bs0. build_books (source_entries file) [] = Inr bs0 \<and> init_all bs0 = Inr bs"
  using assms
  by (auto simp: load_try_def source_entries_def split: option.splits pyval.splits sum.splits)

lemma build_books_entries:
  "build_books items acc = Inr bs \<Longrightarrow> kd \<in> set bs \<Longrightarrow>
   kd \<in> set acc \<or>
   (PDict (snd kd) \<in> set items \<and>
    (\<exists>v. map_of (snd kd) ''isbn'' = Some v \<and> to_key v = Some (fst kd)))"
proof (induction items arbitrary: acc)
  case Nil
  then show ?case by simp
next
  case (Cons book rest)
  from Cons.prems(1) obtain k d where
    ek: "entry_key book = Inr (k, d)" and
    rest: "build_books rest (AList.update k d acc) = Inr bs"
    by (auto split: sum.splits)
  from ek have book: "book = PDict d" "\<exists>v. map_of d ''isbn'' = Some v \<and> to_key v = Some k"
    by (cases book; auto simp: getitem_def split: option.splits)+
  from Cons.IH [OF rest Cons.prems(2)]
  consider "kd \<in> set (AList.update k d acc)"
    | "PDict (snd kd) \<in> set rest \<and>
       (\<exists>v. map_of (snd kd) ''isbn'' = Some v \<and> to_key v = Some (fst kd))"
    by blast
  then show ?case
  proof cases
    case 1
    with set_update_subset [of k d acc] have "kd = (k, d) \<or> kd \<in> set acc" by auto
    with book show ?thesis by auto
  next
    case 2
    then show ?thesis by auto
  qed
qed

lemma init_all_entries:
  "init_all bs0 = Inr bs \<Longrightarrow> kb \<in> set bs \<Longrightarrow>
   \<exists>d. (fst kb, d) \<in> set bs0 \<and> init_available d = Inr (snd kb)"
proof (induction bs0 arbitrary: bs)
  case Nil
  then show ?case by simp
next
  case (Cons p bs0)
  obtain k d where p: "p = (k, d)" by (cases p)
  from Cons.prems(1) p obtain d' rest' where
    d': "init_available d = Inr d'" and
    rest': "init_all bs0 = Inr rest'" and
    bs: "bs = (k, d') # rest'"
    by (auto split: sum.splits)
  from Cons.prems(2) bs have "kb = (k, d') \<or> kb \<in> set rest'" by simp
  then show ?case
  proof
    assume "kb = (k, d')"
    with d' p show ?thesis by auto
  next
    assume "kb \<in> set rest'"
    from Cons.IH [OF rest' this] show ?thesis by auto
  qed
qed

lemma init_available_Inr:
  assumes "init_available d = Inr d'"
  shows "(\<forall>f. f \<noteq> ''available_copies'' \<longrightarrow> map_of d' f = map_of d f) \<and>
         (case map_of d ''available_copies'' of
            Some a \<Rightarrow> d' = d
          | None \<Rightarrow> map_of d ''totalCopies'' \<noteq> None \<and>
                    map_of d' ''available_copies'' = map_of d ''totalCopies'')"
  using assms
  by (auto simp: init_available_def getitem_def update_conv' split: option.splits)

text \<open>
  C8. When any step of the load raises, the catalog is empty. Otherwise every book of the
  catalog comes from an entry of the source data, stored under that entry's \<open>isbn\<close>, with
  every field other than \<open>available_copies\<close> as in the entry. When the entry supplies
  \<open>available_copies\<close> the book is the entry unchanged; when it does not, the book's
  \<open>available_copies\<close> is its total-copy count, which the loader reads from the field
  \<open>totalCopies\<close>.
\<close>

theorem load_available_copies:
  "(load_try file = Inl e \<longrightarrow> load file = []) \<and>
   (\<forall>kb\<in>set (load file). \<exists>src v.
      PDict src \<in> set (source_entries file) \<and>
      map_of src ''isbn'' = Some v \<and> to_key v = Some (fst kb) \<and>
      (\<forall>f. f \<noteq> ''available_copies'' \<longrightarrow> map_of (snd kb) f = map_of src f) \<and>
      (case map_of src ''available_copies'' of
         Some a \<Rightarrow> snd kb = src
       | None \<Rightarrow> map_of (snd kb) ''totalCopies'' \<noteq> None \<and>
                 map_of (snd kb) ''available_copies'' = map_of (snd kb) ''totalCopies'' \<and>
                 available_copies (snd kb) = total_copies ''totalCopies'' (snd kb)))"
proof (intro conjI impI ballI)
  assume "load_try file = Inl e"
  then show "load file = []" by (simp add: load_def)
next
  fix kb assume kb: "kb \<in> set (load file)"
  then obtain bs where bs: "load_try file = Inr bs" "kb \<in> set bs"
    by (cases "load_try file") (auto simp: load_def)
  from load_try_Inr [OF bs(1)] obtain bs0 where
    bs0: "build_books (source_entries file) [] = Inr bs0" "init_all bs0 = Inr bs" by blast
  from init_all_entries [OF bs0(2) bs(2)] obtain src where
    src: "(fst kb, src) \<in> set bs0" "init_available src = Inr (snd kb)" by blast
  from build_books_entries [OF bs0(1) src(1)] obtain v where
    v: "PDict src \<in> set (source_entries file)" "map_of src ''isbn'' = Some v"
       "to_key v = Some (fst kb)"
    by auto
  from init_available_Inr [OF src(2)] have
    same: "\<forall>f. f \<noteq> ''available_copies'' \<longrightarrow> map_of (snd kb) f = map_of src f" and
    av: "case map_of src ''available_copies'' of
            Some a \<Rightarrow> snd kb = src
          | None \<Rightarrow> map_of src ''totalCopies'' \<noteq> None \<and>
                    map_of (snd kb) ''available_copies'' = map_of src ''totalCopies''"
    by blast+
  from same have tot: "map_of (snd kb) ''totalCopies'' = map_of src ''totalCopies''"
    by simp
  have "case map_of src ''available_copies'' of
         Some a \<Rightarrow> snd kb = src
       | None \<Rightarrow> map_of (snd kb) ''totalCopies'' \<noteq> None \<and>
                 map_of (snd kb) ''available_copies'' = map_of (snd kb) ''totalCopies'' \<and>
                 available_copies (snd kb) = total_copies ''totalCopies'' (snd kb)"
    using av tot
    by (auto simp: available_copies_def total_copies_def split: option.splits)
  with v same show "\<exists>src v.
      PDict src \<in> set (source_entries file) \<and>
      map_of src ''isbn'' = Some v \<and> to_key v = Some (fst kb) \<and>
      (\<forall>f. f \<noteq> ''available_copies'' \<longrightarrow> map_of (snd kb) f = map_of src f) \<and>
      (case map_of src ''available_copies'' of
         Some a \<Rightarrow> snd kb = src
       | None \<Rightarrow> map_of (snd kb) ''totalCopies'' \<noteq> None \<and>
                 map_of (snd kb) ''available_copies'' = map_of (snd kb) ''totalCopies'' \<and>
                 available_copies (snd kb) = total_copies ''totalCopies'' (snd kb))"
    by blast
qed

theorem load_available_copies_witness:
  "load_try (Some broken_json) = Inl (KeyError ''totalCopies'') \<and>
   load (Some broken_json) = [] \<and>
   load (Some books_json) =
     [(KStr ''123'',
       [(''isbn'', PStr ''123''), (''title'', PStr ''Dune''), (''totalCopies'', PInt 2),
        (''available_copies'', PInt 2)]),
      (KStr ''456'',
       [(''isbn'', PStr ''456''), (''title'', PStr ''Emma''), (''totalCopies'', PInt 3),
        (''available_copies'', PInt 1)])] \<and>
   (KStr ''123'',
      [(''isbn'', PStr ''123''), (''title'', PStr ''Dune''), (''totalCopies'', PInt 2),
       (''available_copies'', PInt 2)]) \<in> set (load (Some books_json)) \<and>
   available_copies
      [(''isbn'', PStr ''123''), (''title'', PStr ''Dune''), (''totalCopies'', PInt 2),
       (''available_copies'', PInt 2)] =
   total_copies ''totalCopies''
      [(''isbn'', PStr ''123''), (''title'', PStr ''Dune''), (''totalCopies'', PInt 2),
       (''available_copies'', PInt 2)]"
proof -
  have f: "load_try (Some broken_json) = Inl (KeyError ''totalCopies'')"
    by (simp add: load_try_def broken_json_def init_available_def getitem_def)
  have l: "load (Some books_json) =
     [(KStr ''123'',
       [(''isbn'', PStr ''123''), (''title'', PStr ''Dune''), (''totalCopies'', PInt 2),
        (''available_copies'', PInt 2)]),
      (KStr ''456'',
       [(''isbn'', PStr ''456''), (''title'', PStr ''Emma''), (''totalCopies'', PInt 3),
        (''available_copies'', PInt 1)])]"
    by (simp add: load_def load_try_def books_json_def init_available_def getitem_def)
  have e: "load (Some broken_json) = []"
    using f load_available_copies [of "Some broken_json" "KeyError ''totalCopies''"]
    by blast
  have a: "available_copies
      [(''isbn'', PStr ''123''), (''title'', PStr ''Dune''), (''totalCopies'', PInt 2),
       (''available_copies'', PInt 2)] =
   total_copies ''totalCopies''
      [(''isbn'', PStr ''123''), (''title'', PStr ''Dune''), (''totalCopies'', PInt 2),
       (''available_copies'', PInt 2)]"
    using l load_available_copies [of "Some books_json" "KeyError ''totalCopies''"]
    by (simp add: available_copies_def total_copies_def)
  from f e l a show ?thesis by simp
qed

end
